theory Spec2Isabelle
  imports Main
begin

unbundle bit_operations_syntax

section \<open>Python built-ins the assembler relies on\<close>

text \<open>
  The assembler (\<^verbatim>\<open>src/tools/assembler.py\<close>) works on Python strings and unbounded
  integers.  Strings are modelled as \<^typ>\<open>string\<close> over 7-bit ASCII source text
  (Python's treatment of characters beyond ASCII by \<^verbatim>\<open>upper\<close>, \<^verbatim>\<open>strip\<close> and
  \<^verbatim>\<open>\s\<close> is not modelled), integers as \<^typ>\<open>int\<close>, the address counter and the
  list indices as \<^typ>\<open>nat\<close>.  The interpreter's limit on the number of digits
  of a decimal literal is a resource limit and is not modelled.
\<close>

text \<open>\<^verbatim>\<open>str.isspace\<close>, also the class \<^verbatim>\<open>\s\<close> of \<^verbatim>\<open>re\<close> and what \<^verbatim>\<open>str.strip()\<close>
  removes: the ASCII characters 9--13, 28--31 and the blank.\<close>

definition py_isspace :: "char \<Rightarrow> bool" where
  "py_isspace c =
     (let n = (of_char c :: nat) in (9 \<le> n \<and> n \<le> 13) \<or> (28 \<le> n \<and> n \<le> 32))"

definition py_strip :: "string \<Rightarrow> string" where
  "py_strip s = rev (dropWhile py_isspace (rev (dropWhile py_isspace s)))"

definition upper_char :: "char \<Rightarrow> char" where
  "upper_char c =
     (let n = (of_char c :: nat) in if 97 \<le> n \<and> n \<le> 122 then char_of (n - 32) else c)"

definition py_upper :: "string \<Rightarrow> string" where
  "py_upper s = map upper_char s"

text \<open>\<^verbatim>\<open>s.split(d)\<close> for a separator of one character: the pieces between the
  occurrences of \<open>d\<close>, empty pieces included.  The first argument of the auxiliary
  function is the piece read so far.\<close>

fun py_split_aux :: "char \<Rightarrow> string \<Rightarrow> string \<Rightarrow> string list" where
  "py_split_aux d cur [] = [cur]"
| "py_split_aux d cur (c # cs) =
     (if c = d then cur # py_split_aux d [] cs else py_split_aux d (cur @ [c]) cs)"

definition py_split :: "char \<Rightarrow> string \<Rightarrow> string list" where
  "py_split d s = py_split_aux d [] s"

text \<open>\<^verbatim>\<open>re.split(r'[,\s]+', line)\<close>: the pieces between the maximal runs of commas and
  white space; a run at the very start or end leaves an empty piece there.\<close>

definition is_sep :: "char \<Rightarrow> bool" where
  "is_sep c = (c = CHR '','' \<or> py_isspace c)"

function re_split_aux :: "string \<Rightarrow> string \<Rightarrow> string list" where
  "re_split_aux cur [] = [cur]"
| "re_split_aux cur (c # cs) =
     (if is_sep c then cur # re_split_aux [] (dropWhile is_sep cs)
      else re_split_aux (cur @ [c]) cs)"
  by pat_completeness auto
termination
  by (relation "measure (\<lambda>(cur, s). length s)")
     (auto simp: less_Suc_eq_le length_dropWhile_le)

definition re_split :: "string \<Rightarrow> string list" where
  "re_split s = re_split_aux [] s"

text \<open>\<^verbatim>\<open>int(s, base)\<close> for the bases 2, 10 and 16: white space around the
  literal (here \<^verbatim>\<open>int\<close> knows only 9--13 and the blank), an optional sign, for base
  16 an optional \<^verbatim>\<open>0x\<close> and for base 2 an optional \<^verbatim>\<open>0b\<close> (either case, and one
  underscore may follow it), then at least one digit below the base, with single
  underscores allowed between digits.  Anything else is the \<^verbatim>\<open>ValueError\<close>
  "invalid literal for int() with base ...".\<close>

definition int_isspace :: "char \<Rightarrow> bool" where
  "int_isspace c = (let n = (of_char c :: nat) in (9 \<le> n \<and> n \<le> 13) \<or> n = 32)"

definition digit_value :: "char \<Rightarrow> nat option" where
  "digit_value c =
     (let n = (of_char c :: nat) in
      if 48 \<le> n \<and> n \<le> 57 then Some (n - 48)
      else if 97 \<le> n \<and> n \<le> 122 then Some (n - 87)
      else if 65 \<le> n \<and> n \<le> 90 then Some (n - 55)
      else None)"

fun digits_acc :: "nat \<Rightarrow> nat \<Rightarrow> string \<Rightarrow> nat option" where
  "digits_acc b acc [] = Some acc"
| "digits_acc b acc (c # cs) =
     (if c = CHR ''_'' then
        (case cs of [] \<Rightarrow> None
         | d # ds \<Rightarrow> if d = CHR ''_'' then None else digits_acc b acc cs)
      else
        (case digit_value c of None \<Rightarrow> None
         | Some v \<Rightarrow> if v < b then digits_acc b (acc * b + v) cs else None))"

definition parse_digits :: "nat \<Rightarrow> string \<Rightarrow> nat option" where
  "parse_digits b s =
     (case s of [] \<Rightarrow> None
      | c # cs \<Rightarrow> if c = CHR ''_'' then None else digits_acc b 0 s)"

fun strip_base_prefix :: "nat \<Rightarrow> string \<Rightarrow> string" where
  "strip_base_prefix b (z # x # rest) =
     (if z = CHR ''0'' \<and>
         ((b = 16 \<and> (x = CHR ''x'' \<or> x = CHR ''X'')) \<or>
          (b = 2 \<and> (x = CHR ''b'' \<or> x = CHR ''B'')))
      then (case rest of u # rest' \<Rightarrow> if u = CHR ''_'' then rest' else rest | [] \<Rightarrow> rest)
      else z # x # rest)"
| "strip_base_prefix b s = s"

datatype error =
    ValueError string        \<comment> \<open>a \<^verbatim>\<open>ValueError\<close> raised by the assembler, with its message\<close>
  | InvalidLiteral nat string \<comment> \<open>the \<^verbatim>\<open>ValueError\<close> of \<^verbatim>\<open>int(s, base)\<close>: base and literal\<close>
  | IndexError               \<comment> \<open>\<^verbatim>\<open>operands[i]\<close> out of range: "list index out of range"\<close>
  | ErrorAtAddress nat error \<comment> \<open>\<^verbatim>\<open>ValueError(f"Error at address {address}: {e}")\<close>\<close>

definition py_int :: "nat \<Rightarrow> string \<Rightarrow> error + int" where
  "py_int b s =
     (let t = rev (dropWhile int_isspace (rev (dropWhile int_isspace s)));
          neg = (case t of c # _ \<Rightarrow> c = CHR ''-'' | [] \<Rightarrow> False);
          u = (case t of c # cs \<Rightarrow> if c = CHR ''+'' \<or> c = CHR ''-'' then cs else t | [] \<Rightarrow> t)
      in case parse_digits b (strip_base_prefix b u) of
           None \<Rightarrow> Inl (InvalidLiteral b s)
         | Some n \<Rightarrow> Inr (if neg then - int n else int n))"

text \<open>\<^verbatim>\<open>str(n)\<close> for an integer: decimal digits, with a minus sign when negative.\<close>

fun str_nat :: "nat \<Rightarrow> string" where
  "str_nat n =
     (if n < 10 then [char_of (48 + n)] else str_nat (n div 10) @ [char_of (48 + n mod 10)])"

declare str_nat.simps [simp del]

definition py_str :: "int \<Rightarrow> string" where
  "py_str i = (if i < 0 then CHR ''-'' # str_nat (nat (- i)) else str_nat (nat i))"

section \<open>The assembler\<close>

text \<open>The tables \<^verbatim>\<open>OPCODES\<close> and \<^verbatim>\<open>REGISTERS\<close>.\<close>

definition OPCODES :: "string \<Rightarrow> int option" where
  "OPCODES = map_of
     [(''LOADI'', 0x0), (''ADD'', 0x1), (''SUB'', 0x2), (''AND'', 0x3), (''OR'', 0x4),
      (''XOR'', 0x5), (''STORE'', 0x6), (''LOAD'', 0x7), (''SHL'', 0x8), (''SHR'', 0x9),
      (''MOV'', 0xA), (''CMP'', 0xB), (''JUMP'', 0xC), (''JZ'', 0xD), (''JNZ'', 0xE),
      (''NOT'', 0xF), (''HALT'', 0xF), (''PUSH'', 0xE), (''POP'', 0xE), (''MUL'', 0xD),
      (''DIV'', 0xD), (''IN'', 0xE), (''OUT'', 0xE), (''RETI'', 0xF)]"

definition REGISTERS :: "string \<Rightarrow> int option" where
  "REGISTERS = map_of
     [(''R0'', 0), (''R1'', 1), (''R2'', 2), (''R3'', 3),
      (''R4'', 4), (''R5'', 5), (''R6'', 6), (''R7'', 7)]"

definition parse_register :: "string \<Rightarrow> error + int" where
  "parse_register reg_str0 =
     (let reg_str = py_upper (py_strip reg_str0) in
      case REGISTERS reg_str of
        Some r \<Rightarrow> Inr r
      | None \<Rightarrow> Inl (ValueError (''Invalid register: '' @ reg_str)))"

definition parse_immediate :: "string \<Rightarrow> error + int" where
  "parse_immediate imm_str0 =
     (let imm_str1 = py_strip imm_str0;
          imm_str =
            (if imm_str1 \<noteq> [] \<and> hd imm_str1 = CHR ''['' \<and> last imm_str1 = CHR '']''
             then butlast (tl imm_str1) else imm_str1)
      in if take 2 imm_str = ''0x'' \<or> take 2 imm_str = ''0X'' then py_int 16 imm_str
         else if take 2 imm_str = ''0b'' \<or> take 2 imm_str = ''0B'' then py_int 2 imm_str
         else py_int 10 imm_str)"

text \<open>\<^verbatim>\<open>operands[i]\<close>, which raises \<^verbatim>\<open>IndexError\<close> when the list is too short, and
  the sequencing of two steps of which the first may raise.\<close>

definition operand :: "string list \<Rightarrow> nat \<Rightarrow> error + string" where
  "operand operands i = (if i < length operands then Inr (operands ! i) else Inl IndexError)"

definition and_then :: "error + 'a \<Rightarrow> ('a \<Rightarrow> error + 'b) \<Rightarrow> error + 'b" where
  "and_then m f = (case m of Inl e \<Rightarrow> Inl e | Inr x \<Rightarrow> f x)"

definition exceeds :: "string \<Rightarrow> int \<Rightarrow> error" where
  "exceeds what v = ValueError (what @ '' '' @ py_str v @ '' exceeds 6-bit range (0-63)'')"

text \<open>The encoders of the branches that share a shape: a register and a value for the
  low six bits; three registers of which the last is parsed and dropped.\<close>

definition encode_reg_low6 :: "string \<Rightarrow> int \<Rightarrow> string list \<Rightarrow> error + int" where
  "encode_reg_low6 what opcode operands =
     and_then (operand operands 0) (\<lambda>s0. and_then (parse_register s0) (\<lambda>rd.
     and_then (operand operands 1) (\<lambda>s1. and_then (parse_immediate s1) (\<lambda>imm.
       if imm > 63 then Inl (exceeds what imm)
       else Inr (push_bit 12 opcode OR push_bit 9 rd OR push_bit 6 0 OR imm)))))"

definition encode_three_regs :: "int \<Rightarrow> string list \<Rightarrow> error + int" where
  "encode_three_regs opcode operands =
     and_then (operand operands 0) (\<lambda>s0. and_then (parse_register s0) (\<lambda>rd.
     and_then (operand operands 1) (\<lambda>s1. and_then (parse_register s1) (\<lambda>rs1.
     and_then (operand operands 2) (\<lambda>s2. and_then (parse_register s2) (\<lambda>rs2.
       Inr (push_bit 12 opcode OR push_bit 9 rs1 OR push_bit 6 rd OR 0)))))))"

definition encode_instruction :: "string \<Rightarrow> string list \<Rightarrow> error + int" where
  "encode_instruction mnemonic0 operands =
     (let mnemonic = py_upper mnemonic0 in
      case OPCODES mnemonic of
        None \<Rightarrow> Inl (ValueError (''Unknown instruction: '' @ mnemonic))
      | Some opcode \<Rightarrow>
          if mnemonic = ''LOADI'' then encode_reg_low6 ''Immediate value'' opcode operands
          else if mnemonic = ''ADD'' then encode_three_regs opcode operands
          else if mnemonic = ''SUB'' then encode_three_regs opcode operands
          else if mnemonic = ''STORE'' then encode_reg_low6 ''Address'' opcode operands
          else if mnemonic = ''LOAD'' then encode_reg_low6 ''Address'' opcode operands
          else if mnemonic = ''JUMP'' then
            and_then (operand operands 0) (\<lambda>s0. and_then (parse_immediate s0) (\<lambda>addr.
              if addr > 63 then Inl (exceeds ''Jump address'' addr)
              else Inr (push_bit 12 opcode OR push_bit 9 0 OR push_bit 6 0 OR addr)))
          else if mnemonic = ''JZ'' then encode_reg_low6 ''Jump address'' opcode operands
          else if mnemonic = ''JNZ'' then encode_reg_low6 ''Jump address'' opcode operands
          else if mnemonic = ''PUSH'' then
            and_then (operand operands 0) (\<lambda>s0. and_then (parse_register s0) (\<lambda>rs.
              Inr (push_bit 12 0xE OR push_bit 9 rs OR push_bit 6 0 OR 0)))
          else if mnemonic = ''POP'' then
            and_then (operand operands 0) (\<lambda>s0. and_then (parse_register s0) (\<lambda>rd.
              Inr (push_bit 12 0xE OR push_bit 9 rd OR push_bit 6 1 OR 0)))
          else if mnemonic = ''MUL'' then encode_three_regs 0xD operands
          else if mnemonic = ''HALT'' then Inr 0xF000
          else if mnemonic = ''RETI'' then Inr 0xF001
          else Inl (ValueError (''Instruction encoding not implemented: '' @ mnemonic)))"

text \<open>\<^verbatim>\<open>assemble_line\<close>: one source line becomes nothing (blank or comment only), the
  marker \<^verbatim>\<open>('LABEL', [label], None)\<close> of a line that holds a label alone, or
  \<^verbatim>\<open>(mnemonic, operands, label)\<close>.\<close>

definition parse_statement ::
  "string \<Rightarrow> string option \<Rightarrow> (string \<times> string list \<times> string option) option" where
  "parse_statement line label =
     (let parts = re_split line;
          mnemonic = py_upper (hd parts);
          operands = map py_strip (filter (\<lambda>p. py_strip p \<noteq> []) (tl parts))
      in Some (mnemonic, operands, label))"

definition assemble_line :: "string \<Rightarrow> (string \<times> string list \<times> string option) option" where
  "assemble_line line0 =
     (let line = py_strip (hd (py_split (CHR '';'') line0)) in
      if line = [] then None
      else if CHR '':'' \<in> set line then
        (let label = py_strip (takeWhile (\<lambda>c. c \<noteq> CHR '':'') line);
             rest = py_strip (tl (dropWhile (\<lambda>c. c \<noteq> CHR '':'') line))
         in if rest = [] then Some (''LABEL'', [label], None)
            else parse_statement rest (Some label))
      else parse_statement line None)"

text \<open>The first pass of \<^verbatim>\<open>assemble\<close>: the loop that fills \<^verbatim>\<open>self.labels\<close>, with the
  dictionary and the address counter as explicit state.  \<^verbatim>\<open>if label:\<close> is false for
  \<^verbatim>\<open>None\<close> and for the empty string.\<close>

fun first_pass :: "(string \<rightharpoonup> nat) \<Rightarrow> nat \<Rightarrow> string list \<Rightarrow> (string \<rightharpoonup> nat)" where
  "first_pass labels address [] = labels"
| "first_pass labels address (line # lines) =
     (case assemble_line line of
        None \<Rightarrow> first_pass labels address lines
      | Some (mnemonic, operands, label) \<Rightarrow>
          first_pass
            (case label of
               None \<Rightarrow> labels
             | Some l \<Rightarrow> if l \<noteq> [] then labels(l \<mapsto> address) else labels)
            (if mnemonic \<noteq> ''LABEL'' then address + 1 else address)
            lines)"

text \<open>The loop of the second pass that replaces operands naming a label.\<close>

definition replace_labels :: "(string \<rightharpoonup> nat) \<Rightarrow> string list \<Rightarrow> string list" where
  "replace_labels labels operands =
     map (\<lambda>op. case labels op of Some a \<Rightarrow> py_str (int a) | None \<Rightarrow> op) operands"

text \<open>The second pass: the address counter and the list of instructions built so
  far are the state; any exception of the encoder is raised again with the address.\<close>

fun second_pass ::
  "(string \<rightharpoonup> nat) \<Rightarrow> nat \<Rightarrow> (nat \<times> int) list \<Rightarrow> string list \<Rightarrow> error + (nat \<times> int) list" where
  "second_pass labels address instructions [] = Inr instructions"
| "second_pass labels address instructions (line # lines) =
     (case assemble_line line of
        None \<Rightarrow> second_pass labels address instructions lines
      | Some (mnemonic, operands, label) \<Rightarrow>
          if mnemonic = ''LABEL'' then second_pass labels address instructions lines
          else
            (case encode_instruction mnemonic (replace_labels labels operands) of
               Inl e \<Rightarrow> Inl (ErrorAtAddress address e)
             | Inr instruction \<Rightarrow>
                 second_pass labels (address + 1)
                   (instructions @ [(address, instruction)]) lines))"

text \<open>\<^verbatim>\<open>assemble\<close> on a fresh \<^verbatim>\<open>Assembler\<close> (its \<^verbatim>\<open>labels\<close> empty): the two passes
  over \<^verbatim>\<open>source.split('\n')\<close>.  \<open>symbol_table\<close> is what the call leaves in
  \<^verbatim>\<open>self.labels\<close>, \<open>assemble\<close> the value returned.\<close>

definition assemble_lines :: "string list \<Rightarrow> error + (nat \<times> int) list" where
  "assemble_lines lines = second_pass (first_pass Map.empty 0 lines) 0 [] lines"

definition symbol_table :: "string \<Rightarrow> (string \<rightharpoonup> nat)" where
  "symbol_table source = first_pass Map.empty 0 (py_split (CHR 0x0A) source)"

definition assemble :: "string \<Rightarrow> error + (nat \<times> int) list" where
  "assemble source = assemble_lines (py_split (CHR 0x0A) source)"

section \<open>Notions used to state the properties\<close>

text \<open>The words of the specification about source lines.  A line is read with its
  comment removed and trimmed.  A pure-label line carries only a label: a label, its
  colon and nothing after.  A non-label statement is a line that is neither blank nor
  a pure-label line; its mnemonic is the first token, in upper case, of what follows
  the label, or of the whole line when there is no colon.\<close>

definition stripped :: "string \<Rightarrow> string" where
  "stripped line = py_strip (hd (py_split (CHR '';'') line))"

definition after_colon :: "string \<Rightarrow> string" where
  "after_colon s = py_strip (tl (dropWhile (\<lambda>c. c \<noteq> CHR '':'') s))"

definition pure_label_line :: "string \<Rightarrow> bool" where
  "pure_label_line line =
     (CHR '':'' \<in> set (stripped line) \<and> after_colon (stripped line) = [])"

definition non_label_statement :: "string \<Rightarrow> bool" where
  "non_label_statement line = (stripped line \<noteq> [] \<and> \<not> pure_label_line line)"

definition statement_mnemonic :: "string \<Rightarrow> string" where
  "statement_mnemonic line =
     py_upper (hd (re_split
       (if CHR '':'' \<in> set (stripped line) then after_colon (stripped line)
        else stripped line)))"

text \<open>The statements that take an address: the non-label statements whose mnemonic is
  not the word \<^verbatim>\<open>LABEL\<close>.\<close>

definition counted_statement :: "string \<Rightarrow> bool" where
  "counted_statement line =
     (non_label_statement line \<and> statement_mnemonic line \<noteq> ''LABEL'')"

text \<open>A line of the form \<^verbatim>\<open>l: statement\<close>: the non-empty label \<open>l\<close>, a colon and a
  statement after it on the same line.\<close>

definition labelled_statement :: "string \<Rightarrow> string \<Rightarrow> bool" where
  "labelled_statement l line =
     (l \<noteq> [] \<and> CHR '':'' \<in> set (stripped line) \<and>
      py_strip (takeWhile (\<lambda>c. c \<noteq> CHR '':'') (stripped line)) = l \<and>
      after_colon (stripped line) \<noteq> [])"

text \<open>The test by which both passes of the code advance the address: the tuple of the
  line has a mnemonic other than \<^verbatim>\<open>'LABEL'\<close>.\<close>

definition is_statement :: "string \<Rightarrow> bool" where
  "is_statement line =
     (case assemble_line line of None \<Rightarrow> False
      | Some (mnemonic, operands, label) \<Rightarrow> mnemonic \<noteq> ''LABEL'')"

text \<open>The number of operands of each mnemonic that has an encoding rule, as the comments
  of the branches of \<^verbatim>\<open>encode_instruction\<close> give it (\<^verbatim>\<open>LOADI Rd, imm\<close>,
  \<^verbatim>\<open>ADD Rd, Rs1, Rs2\<close>, \<^verbatim>\<open>JUMP addr\<close>, ...).\<close>

definition expected_arity :: "string \<Rightarrow> nat option" where
  "expected_arity = map_of
     [(''LOADI'', 2), (''ADD'', 3), (''SUB'', 3), (''STORE'', 2), (''LOAD'', 2),
      (''JUMP'', 1), (''JZ'', 2), (''JNZ'', 2), (''PUSH'', 1), (''POP'', 1),
      (''MUL'', 3), (''HALT'', 0), (''RETI'', 0)]"

section \<open>Encoding of single instructions\<close>

lemma parse_register_range:
  "parse_register r = Inr rd \<Longrightarrow> rd \<in> {0, 1, 2, 3, 4, 5, 6, 7}"
  by (auto simp: parse_register_def REGISTERS_def Let_def split: option.splits if_splits)

lemma pop_fields:
  "rd \<in> {0, 1, 2, 3, 4, 5, 6, 7 :: int} \<Longrightarrow>
   w = push_bit 12 0xE OR push_bit 9 rd OR push_bit 6 1 \<Longrightarrow>
   drop_bit 12 w = 0xE \<and> take_bit 3 (drop_bit 9 w) = rd \<and>
   take_bit 3 (drop_bit 6 w) = 1 \<and> take_bit 6 w = 0"
  by auto

text \<open>
  C1, as the claim states it, fails: \<^verbatim>\<open>POP R0\<close> is not the word
  \<open>(0xE << 12) | (0 << 6)\<close>; the encoder puts the register into bits 11:9 and the
  constant 1 into bits 8:6.
\<close>

theorem pop_encoding_counterexample:
  "encode_instruction ''POP'' [''R0''] = Inr 0xE040 \<and>
   (0xE040 :: int) \<noteq> push_bit 12 0xE OR push_bit 6 0"
  by code_simp

text \<open>
  C1 (amended): for every register token, \<^verbatim>\<open>POP Rd\<close> is encoded as the word with
  opcode nibble \<open>0xE\<close>, the register index in bits 11:9, the constant 1 in bits 8:6
  and zero in the low six bits, that is \<open>(0xE << 12) | (Rd << 9) | (1 << 6)\<close>.
\<close>

theorem pop_encoding:
  assumes "parse_register r = Inr rd"
  shows "\<exists>w. encode_instruction ''POP'' (r # more) = Inr w \<and>
             w = push_bit 12 0xE OR push_bit 9 rd OR push_bit 6 1 \<and>
             drop_bit 12 w = 0xE \<and> take_bit 3 (drop_bit 9 w) = rd \<and>
             take_bit 3 (drop_bit 6 w) = 1 \<and> take_bit 6 w = 0"
proof -
  have enc: "encode_instruction ''POP'' (r # more) =
               Inr (push_bit 12 0xE OR push_bit 9 rd OR push_bit 6 1)"
    using assms
    by (simp add: encode_instruction_def OPCODES_def py_upper_def upper_char_def
        operand_def and_then_def)
  from pop_fields [OF parse_register_range [OF assms] refl] enc show ?thesis
    by blast
qed

theorem pop_encoding_witness:
  "parse_register ''r3'' = Inr 3 \<and> encode_instruction ''POP'' [''r3''] = Inr 0xE640"
proof -
  have h: "parse_register ''r3'' = Inr 3"
    by code_simp
  from pop_encoding [OF h, of "[]"] h show ?thesis
    by auto
qed

text \<open>
  C2, at a negative value: \<^verbatim>\<open>LOADI R0, -1\<close> is not rejected.  The only test of the
  encoder is \<^verbatim>\<open>imm > 63\<close>, so the value \<open>-1\<close> goes into the word, and the result is
  the integer \<open>-1\<close>, which is no 16-bit word.
\<close>

theorem loadi_negative_immediate:
  "encode_instruction ''LOADI'' [''R0'', ''-1''] = Inr (- 1)"
  by code_simp

text \<open>The part of the range check that the encoder does perform, for the branches
  with a register and a low-6 value (\<^verbatim>\<open>LOADI\<close>, \<^verbatim>\<open>STORE\<close>, \<^verbatim>\<open>LOAD\<close>, \<^verbatim>\<open>JZ\<close>,
  \<^verbatim>\<open>JNZ\<close>).\<close>

lemma encode_reg_low6_range:
  assumes "parse_register r = Inr rd" and "parse_immediate s = Inr v"
  shows "encode_reg_low6 what opcode [r, s] =
           (if 63 < v
            then Inl (ValueError (what @ '' '' @ py_str v @ '' exceeds 6-bit range (0-63)''))
            else Inr (push_bit 12 opcode OR push_bit 9 rd OR v))"
  using assms by (simp add: encode_reg_low6_def operand_def and_then_def exceeds_def)

lemma encode_instruction_low6:
  "encode_instruction ''LOADI'' ops = encode_reg_low6 ''Immediate value'' 0x0 ops"
  "encode_instruction ''STORE'' ops = encode_reg_low6 ''Address'' 0x6 ops"
  "encode_instruction ''LOAD'' ops = encode_reg_low6 ''Address'' 0x7 ops"
  "encode_instruction ''JZ'' ops = encode_reg_low6 ''Jump address'' 0xD ops"
  "encode_instruction ''JNZ'' ops = encode_reg_low6 ''Jump address'' 0xE ops"
  by (simp_all add: encode_instruction_def OPCODES_def py_upper_def upper_char_def)

text \<open>For the six mnemonics with a low-6 value: a value above 63 is rejected with a
  message that names the value and the range; every other value, the negative ones
  included, is encoded.\<close>

lemma low6_range_check:
  assumes "(m, what, opc) \<in> set
      [(''LOADI'', ''Immediate value'', 0x0), (''STORE'', ''Address'', 0x6),
       (''LOAD'', ''Address'', 0x7), (''JZ'', ''Jump address'', 0xD),
       (''JNZ'', ''Jump address'', 0xE)]"
    and "parse_register r = Inr rd" and "parse_immediate s = Inr v"
  shows "encode_instruction m [r, s] =
           (if 63 < v
            then Inl (ValueError (what @ '' '' @ py_str v @ '' exceeds 6-bit range (0-63)''))
            else Inr (push_bit 12 opc OR push_bit 9 rd OR v))"
proof -
  from assms(1) have "encode_instruction m [r, s] = encode_reg_low6 what opc [r, s]"
    by (auto simp: encode_instruction_low6)
  then show ?thesis
    by (simp only: encode_reg_low6_range [OF assms(2,3)])
qed

lemma jump_range_check:
  assumes "parse_immediate s = Inr v"
  shows "encode_instruction ''JUMP'' [s] =
           (if 63 < v
            then Inl (ValueError (''Jump address '' @ py_str v @ '' exceeds 6-bit range (0-63)''))
            else Inr (push_bit 12 0xC OR v))"
  using assms
  by (simp add: encode_instruction_def OPCODES_def py_upper_def upper_char_def operand_def
        and_then_def exceeds_def)

subsection \<open>Unknown and unimplemented mnemonics\<close>

lemma opcodes_cases:
  "OPCODES mn = Some opc \<Longrightarrow>
   mn \<in> set [''LOADI'', ''ADD'', ''SUB'', ''AND'', ''OR'', ''XOR'', ''STORE'', ''LOAD'',
             ''SHL'', ''SHR'', ''MOV'', ''CMP'', ''JUMP'', ''JZ'', ''JNZ'', ''NOT'', ''HALT'',
             ''PUSH'', ''POP'', ''MUL'', ''DIV'', ''IN'', ''OUT'', ''RETI'']"
  by (simp add: OPCODES_def split: if_splits)

lemma encode_reg_low6_message:
  "encode_reg_low6 what opc ops = Inl (ValueError msg) \<Longrightarrow>
   (\<exists>r. msg = ''Invalid register: '' @ r) \<or> (\<exists>v. msg = what @ '' '' @ v)"
  by (auto simp: encode_reg_low6_def operand_def and_then_def parse_register_def
        parse_immediate_def py_int_def exceeds_def Let_def
      split: sum.splits if_splits option.splits)

lemma encode_three_regs_message:
  "encode_three_regs opc ops = Inl (ValueError msg) \<Longrightarrow> \<exists>r. msg = ''Invalid register: '' @ r"
  by (auto simp: encode_three_regs_def operand_def and_then_def parse_register_def Let_def
      split: sum.splits if_splits option.splits)

lemma unknown_message_only_if:
  assumes "encode_instruction m ops = Inl (ValueError (''Unknown instruction: '' @ x))"
  shows "OPCODES (py_upper m) = None"
proof (rule ccontr)
  assume "OPCODES (py_upper m) \<noteq> None"
  then obtain opc where o: "OPCODES (py_upper m) = Some opc"
    by auto
  from opcodes_cases [OF o] assms o show False
    by (auto simp: encode_instruction_def Let_def operand_def and_then_def parse_register_def
          parse_immediate_def py_int_def exceeds_def
        dest!: encode_reg_low6_message encode_three_regs_message
        split: sum.splits if_splits option.splits)
qed

lemma not_implemented_message_only_if:
  assumes "encode_instruction m ops =
             Inl (ValueError (''Instruction encoding not implemented: '' @ y))"
  shows "py_upper m \<in> set [''AND'', ''OR'', ''XOR'', ''SHL'', ''SHR'', ''MOV'', ''CMP'', ''NOT'',
                          ''DIV'', ''IN'', ''OUT'']"
proof (cases "OPCODES (py_upper m)")
  case None
  with assms show ?thesis
    by (simp add: encode_instruction_def)
next
  case (Some opc)
  from opcodes_cases [OF Some] assms Some show ?thesis
    by (auto simp: encode_instruction_def Let_def operand_def and_then_def parse_register_def
          parse_immediate_def py_int_def exceeds_def
        dest!: encode_reg_low6_message encode_three_regs_message
        split: sum.splits if_splits option.splits)
qed

text \<open>
  C7: a mnemonic that is not a key of \<^verbatim>\<open>OPCODES\<close> fails with the message
  "Unknown instruction: " followed by the (upper-cased) mnemonic; each of \<^verbatim>\<open>AND\<close>,
  \<^verbatim>\<open>OR\<close>, \<^verbatim>\<open>XOR\<close>, \<^verbatim>\<open>SHL\<close>, \<^verbatim>\<open>SHR\<close>, \<^verbatim>\<open>MOV\<close>, \<^verbatim>\<open>CMP\<close>, \<^verbatim>\<open>NOT\<close>, \<^verbatim>\<open>DIV\<close>,
  \<^verbatim>\<open>IN\<close>, \<^verbatim>\<open>OUT\<close> is a key of the table and fails, whatever the operands, with the
  message "Instruction encoding not implemented: " and the mnemonic.  The two are
  never conflated: the encoder gives the first message only for a mnemonic outside
  the table and the second only for one of these eleven.
\<close>

theorem unknown_vs_not_implemented:
  "(OPCODES (py_upper m) = None \<longrightarrow>
      encode_instruction m ops = Inl (ValueError (''Unknown instruction: '' @ py_upper m))) \<and>
   (py_upper m \<in> set [''AND'', ''OR'', ''XOR'', ''SHL'', ''SHR'', ''MOV'', ''CMP'', ''NOT'',
                      ''DIV'', ''IN'', ''OUT''] \<longrightarrow>
      OPCODES (py_upper m) \<noteq> None \<and>
      encode_instruction m ops =
        Inl (ValueError (''Instruction encoding not implemented: '' @ py_upper m))) \<and>
   (\<forall>x. encode_instruction m ops = Inl (ValueError (''Unknown instruction: '' @ x)) \<longrightarrow>
      OPCODES (py_upper m) = None) \<and>
   (\<forall>y. encode_instruction m ops =
          Inl (ValueError (''Instruction encoding not implemented: '' @ y)) \<longrightarrow>
      py_upper m \<in> set [''AND'', ''OR'', ''XOR'', ''SHL'', ''SHR'', ''MOV'', ''CMP'', ''NOT'',
                        ''DIV'', ''IN'', ''OUT''])"
proof (intro conjI allI impI)
  assume "OPCODES (py_upper m) = None"
  then show "encode_instruction m ops = Inl (ValueError (''Unknown instruction: '' @ py_upper m))"
    by (simp add: encode_instruction_def)
next
  assume k: "py_upper m \<in> set [''AND'', ''OR'', ''XOR'', ''SHL'', ''SHR'', ''MOV'', ''CMP'',
                               ''NOT'', ''DIV'', ''IN'', ''OUT'']"
  then show "OPCODES (py_upper m) \<noteq> None"
    by (auto simp: OPCODES_def)
  from k show "encode_instruction m ops =
      Inl (ValueError (''Instruction encoding not implemented: '' @ py_upper m))"
    by (auto simp: encode_instruction_def OPCODES_def Let_def)
next
  fix x
  assume "encode_instruction m ops = Inl (ValueError (''Unknown instruction: '' @ x))"
  then show "OPCODES (py_upper m) = None"
    by (rule unknown_message_only_if)
next
  fix y
  assume "encode_instruction m ops =
            Inl (ValueError (''Instruction encoding not implemented: '' @ y))"
  then show "py_upper m \<in> set [''AND'', ''OR'', ''XOR'', ''SHL'', ''SHR'', ''MOV'', ''CMP'',
                               ''NOT'', ''DIV'', ''IN'', ''OUT'']"
    by (rule not_implemented_message_only_if)
qed

theorem unknown_vs_not_implemented_witness:
  "OPCODES (py_upper ''foo'') = None \<and>
   encode_instruction ''foo'' [''R0''] = Inl (ValueError ''Unknown instruction: FOO'') \<and>
   OPCODES (py_upper ''and'') \<noteq> None \<and>
   encode_instruction ''and'' [''R0'', ''R1'', ''R2''] =
     Inl (ValueError ''Instruction encoding not implemented: AND'')"
proof -
  have u: "py_upper ''foo'' = ''FOO''" "py_upper ''and'' = ''AND''"
    by code_simp+
  have h1: "OPCODES (py_upper ''foo'') = None"
    by code_simp
  have h2: "py_upper ''and'' \<in> set [''AND'', ''OR'', ''XOR'', ''SHL'', ''SHR'', ''MOV'', ''CMP'',
                                     ''NOT'', ''DIV'', ''IN'', ''OUT'']"
    by code_simp
  from unknown_vs_not_implemented [of "''foo''" "[''R0'']"]
    unknown_vs_not_implemented [of "''and''" "[''R0'', ''R1'', ''R2'']"] h1 h2 u
  show ?thesis
    by simp
qed

subsection \<open>Operand counts\<close>

lemma operand_take: "i < n \<Longrightarrow> operand (take n ops) i = operand ops i"
  by (simp add: operand_def)

lemma encode_reg_low6_take:
  "encode_reg_low6 what opc (take 2 ops) = encode_reg_low6 what opc ops"
  by (simp add: encode_reg_low6_def operand_take)

lemma encode_three_regs_take: "encode_three_regs opc (take 3 ops) = encode_three_regs opc ops"
  by (simp add: encode_three_regs_def operand_take)

lemma encode_reg_low6_missing:
  "length ops < 2 \<Longrightarrow>
   encode_reg_low6 what opc ops = Inl IndexError \<or>
   (\<exists>i<length ops. \<exists>e. parse_register (ops ! i) = Inl e \<and>
      encode_reg_low6 what opc ops = Inl e)"
  by (cases ops; cases "parse_register (hd ops)")
    (auto simp: encode_reg_low6_def operand_def and_then_def)

lemma encode_three_regs_missing:
  assumes "length ops < 3"
  shows "encode_three_regs opc ops = Inl IndexError \<or>
         (\<exists>i<length ops. \<exists>e. parse_register (ops ! i) = Inl e \<and>
            encode_three_regs opc ops = Inl e)"
proof -
  from assms consider "ops = []" | r where "ops = [r]" | r s where "ops = [r, s]"
    by (cases ops; cases "tl ops"; cases "tl (tl ops)") auto
  then show ?thesis
  proof cases
    case 1
    then show ?thesis
      by (simp add: encode_three_regs_def operand_def and_then_def)
  next
    case 2
    then show ?thesis
      by (cases "parse_register r") (auto simp: encode_three_regs_def operand_def and_then_def)
  next
    case 3
    then show ?thesis
      by (cases "parse_register r"; cases "parse_register s")
        (auto simp: encode_three_regs_def operand_def and_then_def)
  qed
qed

lemma first_operand_missing: "and_then (operand [] 0) f = Inl IndexError"
  by (simp add: operand_def and_then_def)

lemma arity_cases:
  "expected_arity mn = Some n \<Longrightarrow>
   (mn = ''LOADI'' \<and> n = 2) \<or> (mn = ''ADD'' \<and> n = 3) \<or> (mn = ''SUB'' \<and> n = 3) \<or>
   (mn = ''STORE'' \<and> n = 2) \<or> (mn = ''LOAD'' \<and> n = 2) \<or> (mn = ''JUMP'' \<and> n = 1) \<or>
   (mn = ''JZ'' \<and> n = 2) \<or> (mn = ''JNZ'' \<and> n = 2) \<or> (mn = ''PUSH'' \<and> n = 1) \<or>
   (mn = ''POP'' \<and> n = 1) \<or> (mn = ''MUL'' \<and> n = 3) \<or> (mn = ''HALT'' \<and> n = 0) \<or>
   (mn = ''RETI'' \<and> n = 0)"
  by (simp add: expected_arity_def split: if_splits)

lemma extra_operands_ignored:
  "expected_arity (py_upper m) = Some n \<Longrightarrow>
   encode_instruction m (take n ops) = encode_instruction m ops"
  by (drule arity_cases)
    (auto simp: encode_instruction_def OPCODES_def Let_def encode_reg_low6_take
       encode_three_regs_take operand_take)

lemma missing_operand_error:
  "expected_arity (py_upper m) = Some n \<Longrightarrow> length ops < n \<Longrightarrow>
   encode_instruction m ops = Inl IndexError \<or>
   (\<exists>i<length ops. \<exists>e. parse_register (ops ! i) = Inl e \<and> encode_instruction m ops = Inl e)"
  by (drule arity_cases)
    (auto simp: encode_instruction_def OPCODES_def Let_def first_operand_missing
       dest: encode_reg_low6_missing encode_three_regs_missing)

text \<open>
  C8, as the claim states it, fails for too many operands: \<^verbatim>\<open>HALT R0\<close> and
  \<^verbatim>\<open>LOADI R0, 5, 7\<close> are encoded, the surplus operands ignored.
\<close>

theorem extra_operands_counterexample:
  "encode_instruction ''HALT'' [''R0''] = Inr 0xF000 \<and>
   encode_instruction ''LOADI'' [''R0'', ''5'', ''7''] = Inr 0x0005"
  by code_simp

text \<open>
  C8 (amended): for every implemented mnemonic, a statement with fewer operands than
  the mnemonic expects fails: with \<^verbatim>\<open>IndexError\<close> at the missing operand or, when an
  operand that is present is rejected as a register before the missing one is read,
  with the error of that operand.  Operands beyond the expected number are ignored: the
  statement is encoded exactly as the one with the surplus removed.
\<close>

theorem operand_count:
  assumes "expected_arity (py_upper m) = Some n"
  shows "(length ops < n \<longrightarrow>
            encode_instruction m ops = Inl IndexError \<or>
            (\<exists>i<length ops. \<exists>e. parse_register (ops ! i) = Inl e \<and>
               encode_instruction m ops = Inl e)) \<and>
         encode_instruction m ops = encode_instruction m (take n ops)"
  using missing_operand_error [OF assms] extra_operands_ignored [OF assms] by simp

theorem operand_count_witness:
  "expected_arity (py_upper ''LOADI'') = Some 2 \<and> length [''R0''] < (2 :: nat) \<and>
   encode_instruction ''LOADI'' [''R0''] = Inl IndexError \<and>
   encode_instruction ''LOADI'' [''R0'', ''5'', ''7''] = encode_instruction ''LOADI'' [''R0'', ''5'']"
proof -
  have h: "expected_arity (py_upper ''LOADI'') = Some 2"
    by code_simp
  have r: "parse_register ''R0'' = Inr 0"
    by code_simp
  from operand_count [OF h, of "[''R0'']"] operand_count [OF h, of "[''R0'', ''5'', ''7'']"] h r
  show ?thesis
    by simp
qed

subsection \<open>Operands that name a label\<close>

text \<open>The decimal text of an address is read back by \<^verbatim>\<open>parse_immediate\<close> as that
  address, and is no register name.\<close>

lemma digit_chars:
  "char_of (48 :: nat) = CHR ''0''" "char_of (49 :: nat) = CHR ''1''"
  "char_of (50 :: nat) = CHR ''2''" "char_of (51 :: nat) = CHR ''3''"
  "char_of (52 :: nat) = CHR ''4''" "char_of (53 :: nat) = CHR ''5''"
  "char_of (54 :: nat) = CHR ''6''" "char_of (55 :: nat) = CHR ''7''"
  "char_of (56 :: nat) = CHR ''8''" "char_of (57 :: nat) = CHR ''9''"
  by code_simp+

lemma digit_char_cases:
  assumes "d < 10"
  shows "(char_of (48 + d) :: char) \<in> set ''0123456789'' \<and>
         digit_value (char_of (48 + d)) = Some d"
proof -
  from assms have "d \<in> {0, 1, 2, 3, 4, 5, 6, 7, 8, 9}"
    by auto
  then show ?thesis
    by (auto simp: digit_value_def digit_chars)
qed

lemma str_nat_digits: "set (str_nat n) \<subseteq> set ''0123456789''"
proof (induction n rule: str_nat.induct)
  case (1 n)
  show ?case
  proof (cases "n < 10")
    case True
    then show ?thesis
      using digit_char_cases [of n] by (subst str_nat.simps) simp
  next
    case False
    then show ?thesis
      using 1 digit_char_cases [of "n mod 10"] by (subst str_nat.simps) simp
  qed
qed

lemma str_nat_not_empty: "str_nat n \<noteq> []"
  by (subst str_nat.simps) simp

lemma digits_acc_snoc:
  "set s \<subseteq> set ''0123456789'' \<Longrightarrow> d < 10 \<Longrightarrow>
   digits_acc 10 acc (s @ [char_of (48 + d)]) =
     (case digits_acc 10 acc s of None \<Rightarrow> None | Some v \<Rightarrow> Some (v * 10 + d))"
proof (induction s arbitrary: acc)
  case Nil
  then show ?case
    using digit_char_cases [of d] by auto
next
  case (Cons c s)
  then have c: "c \<in> set ''0123456789''" and s: "set s \<subseteq> set ''0123456789''"
    by auto
  from c have "c \<noteq> CHR ''_''" and "\<exists>v. digit_value c = Some v \<and> v < 10"
    by (auto simp: digit_value_def)
  then show ?case
    using Cons.IH [OF s Cons.prems(2)] by auto
qed

lemma digits_acc_str_nat: "digits_acc 10 0 (str_nat n) = Some n"
proof (induction n rule: str_nat.induct)
  case (1 n)
  show ?case
  proof (cases "n < 10")
    case True
    then show ?thesis
      using digit_char_cases [of n] by (subst str_nat.simps) auto
  next
    case False
    then have "digits_acc 10 0 (str_nat (n div 10)) = Some (n div 10)"
      using 1 by simp
    with False show ?thesis
      by (subst str_nat.simps) (simp add: digits_acc_snoc [OF str_nat_digits])
  qed
qed

lemma digits_no_space:
  assumes "set s \<subseteq> set ''0123456789''"
  shows "dropWhile int_isspace s = s" and "dropWhile py_isspace s = s"
proof -
  have "\<forall>c \<in> set s. \<not> int_isspace c \<and> \<not> py_isspace c"
    using assms by (auto simp: int_isspace_def py_isspace_def)
  then show "dropWhile int_isspace s = s" and "dropWhile py_isspace s = s"
    by (cases s; simp)+
qed

lemma strip_digits:
  assumes "set s \<subseteq> set ''0123456789''"
  shows "py_strip s = s" and "rev (dropWhile int_isspace (rev (dropWhile int_isspace s))) = s"
  using digits_no_space [OF assms] digits_no_space [of "rev s"] assms
  by (simp_all add: py_strip_def)

lemma py_int_str_nat: "py_int 10 (str_nat n) = Inr (int n)"
proof -
  obtain c cs where s: "str_nat n = c # cs"
    using str_nat_not_empty [of n] by (cases "str_nat n") auto
  with str_nat_digits [of n] have c: "c \<in> set ''0123456789''"
    by auto
  have pre: "strip_base_prefix 10 (c # cs) = c # cs"
    by (cases cs) simp_all
  from c have sign: "c \<noteq> CHR ''+''" "c \<noteq> CHR ''-''" "c \<noteq> CHR ''_''"
    by auto
  show ?thesis
    using strip_digits(2) [OF str_nat_digits [of n]] digits_acc_str_nat [of n] sign pre
    by (simp add: py_int_def s parse_digits_def)
qed

lemma parse_immediate_str_nat: "parse_immediate (str_nat n) = Inr (int n)"
proof -
  have d: "set (str_nat n) \<subseteq> set ''0123456789''"
    by (rule str_nat_digits)
  have first: "hd (str_nat n) \<noteq> CHR ''[''"
    using d str_nat_not_empty [of n] by (cases "str_nat n") auto
  have "set (take 2 (str_nat n)) \<subseteq> set ''0123456789''"
    using d set_take_subset [of 2 "str_nat n"] by blast
  then have pre: "take 2 (str_nat n) \<noteq> ''0x''" "take 2 (str_nat n) \<noteq> ''0X''"
    "take 2 (str_nat n) \<noteq> ''0b''" "take 2 (str_nat n) \<noteq> ''0B''"
    by auto
  show ?thesis
    using first pre by (simp add: parse_immediate_def strip_digits(1) [OF d] py_int_str_nat)
qed

lemma upper_digits: "set s \<subseteq> set ''0123456789'' \<Longrightarrow> py_upper s = s"
  by (induction s) (auto simp: py_upper_def upper_char_def)

lemma parse_register_str_nat:
  "parse_register (str_nat n) = Inl (ValueError (''Invalid register: '' @ str_nat n))"
proof -
  have d: "set (str_nat n) \<subseteq> set ''0123456789''"
    by (rule str_nat_digits)
  have "REGISTERS (str_nat n) = None"
  proof (cases "REGISTERS (str_nat n)")
    case (Some r)
    then have "CHR ''R'' \<in> set (str_nat n)"
      by (auto simp: REGISTERS_def split: if_splits)
    with d show ?thesis
      by auto
  qed simp
  then show ?thesis
    by (simp add: parse_register_def strip_digits(1) [OF d] upper_digits [OF d])
qed

lemma py_str_nat: "py_str (int a) = str_nat a"
  by (simp add: py_str_def)

lemma replace_labels_nth:
  "i < length ops \<Longrightarrow>
   replace_labels labels ops ! i =
     (case labels (ops ! i) of Some a \<Rightarrow> py_str (int a) | None \<Rightarrow> ops ! i)"
  by (simp add: replace_labels_def)

lemma replace_labels_unbound:
  "\<forall>op \<in> set ops. labels op = None \<Longrightarrow> replace_labels labels ops = ops"
  by (induction ops) (auto simp: replace_labels_def)

lemma encode_reg_low6_operands:
  assumes "2 \<le> length ops" and "parse_register (ops ! 0) = Inr rd"
    and "parse_immediate (ops ! 1) = Inr v"
  shows "encode_reg_low6 what opc ops =
           (if 63 < v
            then Inl (ValueError (what @ '' '' @ py_str v @ '' exceeds 6-bit range (0-63)''))
            else Inr (push_bit 12 opc OR push_bit 9 rd OR v))"
proof -
  from assms(1) have "0 < length ops" and "1 < length ops"
    by auto
  with assms(2,3) show ?thesis
    by (simp add: encode_reg_low6_def operand_def and_then_def exceeds_def)
qed

lemma encode_three_regs_first:
  "ops \<noteq> [] \<Longrightarrow> parse_register (hd ops) = Inl e \<Longrightarrow> encode_three_regs opc ops = Inl e"
  by (cases ops) (auto simp: encode_three_regs_def operand_def and_then_def)

lemma encode_reg_low6_first:
  "ops \<noteq> [] \<Longrightarrow> parse_register (hd ops) = Inl e \<Longrightarrow> encode_reg_low6 what opc ops = Inl e"
  by (cases ops) (auto simp: encode_reg_low6_def operand_def and_then_def)

lemma register_position_rejected:
  assumes "mn \<in> set [''LOADI'', ''ADD'', ''SUB'', ''STORE'', ''LOAD'', ''JZ'', ''JNZ'', ''PUSH'',
                     ''POP'', ''MUL'']"
    and "ops \<noteq> []" and "parse_register (hd ops) = Inl e"
  shows "encode_instruction mn ops = Inl e"
  using assms
  by (cases ops)
    (auto simp: encode_instruction_def OPCODES_def py_upper_def upper_char_def
      encode_three_regs_first encode_reg_low6_first operand_def and_then_def)

text \<open>
  C4 (amended): for every statement the second pass first looks each operand token up,
  verbatim, in the symbol table and only then hands the operands to the encoder, which
  parses them by position.  A token bound in the table is replaced by the decimal text
  of its address, whether or not it is also a register name or would parse as an
  integer: where the encoder expects a register (first operand of \<^verbatim>\<open>LOADI\<close>, \<^verbatim>\<open>ADD\<close>,
  \<^verbatim>\<open>SUB\<close>, \<^verbatim>\<open>STORE\<close>, \<^verbatim>\<open>LOAD\<close>, \<^verbatim>\<open>JZ\<close>, \<^verbatim>\<open>JNZ\<close>, \<^verbatim>\<open>PUSH\<close>, \<^verbatim>\<open>POP\<close>, \<^verbatim>\<open>MUL\<close>) the
  statement fails as an invalid register; where it expects an immediate or an address
  (second operand of \<^verbatim>\<open>LOADI\<close>, \<^verbatim>\<open>STORE\<close>, \<^verbatim>\<open>LOAD\<close>, \<^verbatim>\<open>JZ\<close>, \<^verbatim>\<open>JNZ\<close>, operand of
  \<^verbatim>\<open>JUMP\<close>) the bound address is the value encoded.  Tokens that are not bound reach
  the encoder unchanged.
\<close>

theorem operand_resolution_order:
  assumes "assemble_line line = Some (mn, ops, lbl)" and "mn \<noteq> ''LABEL''"
  shows
   "second_pass labels addr acc (line # rest) =
      (case encode_instruction mn
              (map (\<lambda>op. case labels op of Some a \<Rightarrow> py_str (int a) | None \<Rightarrow> op) ops) of
         Inl e \<Rightarrow> Inl (ErrorAtAddress addr e)
       | Inr w \<Rightarrow> second_pass labels (addr + 1) (acc @ [(addr, w)]) rest) \<and>
    (\<forall>a. mn \<in> set [''LOADI'', ''ADD'', ''SUB'', ''STORE'', ''LOAD'', ''JZ'', ''JNZ'', ''PUSH'',
                    ''POP'', ''MUL''] \<and> ops \<noteq> [] \<and> labels (hd ops) = Some a \<longrightarrow>
       second_pass labels addr acc (line # rest) =
         Inl (ErrorAtAddress addr (ValueError (''Invalid register: '' @ py_str (int a))))) \<and>
    (\<forall>what opc rd a.
       (mn, what, opc) \<in> set
         [(''LOADI'', ''Immediate value'', 0x0), (''STORE'', ''Address'', 0x6),
          (''LOAD'', ''Address'', 0x7), (''JZ'', ''Jump address'', 0xD),
          (''JNZ'', ''Jump address'', 0xE)] \<and>
       2 \<le> length ops \<and> labels (ops ! 0) = None \<and> parse_register (ops ! 0) = Inr rd \<and>
       labels (ops ! 1) = Some a \<longrightarrow>
       second_pass labels addr acc (line # rest) =
         (if 63 < a
          then Inl (ErrorAtAddress addr (ValueError
                 (what @ '' '' @ py_str (int a) @ '' exceeds 6-bit range (0-63)'')))
          else second_pass labels (addr + 1)
                 (acc @ [(addr, push_bit 12 opc OR push_bit 9 rd OR int a)]) rest)) \<and>
    (\<forall>a. mn = ''JUMP'' \<and> ops \<noteq> [] \<and> labels (hd ops) = Some a \<longrightarrow>
       second_pass labels addr acc (line # rest) =
         (if 63 < a
          then Inl (ErrorAtAddress addr (ValueError
                 (''Jump address '' @ py_str (int a) @ '' exceeds 6-bit range (0-63)'')))
          else second_pass labels (addr + 1) (acc @ [(addr, push_bit 12 0xC OR int a)]) rest)) \<and>
    ((\<forall>op \<in> set ops. labels op = None) \<longrightarrow>
       second_pass labels addr acc (line # rest) =
         (case encode_instruction mn ops of
            Inl e \<Rightarrow> Inl (ErrorAtAddress addr e)
          | Inr w \<Rightarrow> second_pass labels (addr + 1) (acc @ [(addr, w)]) rest))"
proof -
  have step: "second_pass labels addr acc (line # rest) =
      (case encode_instruction mn (replace_labels labels ops) of
         Inl e \<Rightarrow> Inl (ErrorAtAddress addr e)
       | Inr w \<Rightarrow> second_pass labels (addr + 1) (acc @ [(addr, w)]) rest)"
    using assms by simp
  have reg: "second_pass labels addr acc (line # rest) =
      Inl (ErrorAtAddress addr (ValueError (''Invalid register: '' @ py_str (int a))))"
    if "mn \<in> set [''LOADI'', ''ADD'', ''SUB'', ''STORE'', ''LOAD'', ''JZ'', ''JNZ'', ''PUSH'',
                   ''POP'', ''MUL'']" and "ops \<noteq> []" and "labels (hd ops) = Some a" for a
  proof -
    from that(2,3) have "hd (replace_labels labels ops) = str_nat a"
      by (cases ops) (simp_all add: replace_labels_def py_str_nat)
    then have "parse_register (hd (replace_labels labels ops)) =
        Inl (ValueError (''Invalid register: '' @ str_nat a))"
      by (simp add: parse_register_str_nat)
    moreover from that(2) have "replace_labels labels ops \<noteq> []"
      by (simp add: replace_labels_def)
    ultimately have "encode_instruction mn (replace_labels labels ops) =
        Inl (ValueError (''Invalid register: '' @ str_nat a))"
      using register_position_rejected [OF that(1)] by blast
    with step show ?thesis
      by (simp add: py_str_nat)
  qed
  have imm: "second_pass labels addr acc (line # rest) =
         (if 63 < a
          then Inl (ErrorAtAddress addr (ValueError
                 (what @ '' '' @ py_str (int a) @ '' exceeds 6-bit range (0-63)'')))
          else second_pass labels (addr + 1)
                 (acc @ [(addr, push_bit 12 opc OR push_bit 9 rd OR int a)]) rest)"
    if "(mn, what, opc) \<in> set
         [(''LOADI'', ''Immediate value'', 0x0), (''STORE'', ''Address'', 0x6),
          (''LOAD'', ''Address'', 0x7), (''JZ'', ''Jump address'', 0xD),
          (''JNZ'', ''Jump address'', 0xE)]"
      and "2 \<le> length ops" and "labels (ops ! 0) = None" and "parse_register (ops ! 0) = Inr rd"
      and "labels (ops ! 1) = Some a" for what opc rd a
  proof -
    from that(2) have len: "2 \<le> length (replace_labels labels ops)"
      by (simp add: replace_labels_def)
    from that(2) have lt: "0 < length ops" "1 < length ops"
      by auto
    from that(3,4) have r: "parse_register (replace_labels labels ops ! 0) = Inr rd"
      by (simp add: replace_labels_nth [OF lt(1)])
    from replace_labels_nth [OF lt(2), of labels] that(5)
    have "replace_labels labels ops ! 1 = py_str (int a)"
      by simp
    then have i: "parse_immediate (replace_labels labels ops ! 1) = Inr (int a)"
      by (simp add: py_str_nat parse_immediate_str_nat)
    from that(1) have "encode_instruction mn (replace_labels labels ops) =
        encode_reg_low6 what opc (replace_labels labels ops)"
      by (auto simp: encode_instruction_low6)
    then have "encode_instruction mn (replace_labels labels ops) =
        (if 63 < int a
         then Inl (ValueError (what @ '' '' @ py_str (int a) @ '' exceeds 6-bit range (0-63)''))
         else Inr (push_bit 12 opc OR push_bit 9 rd OR int a))"
      by (simp only: encode_reg_low6_operands [OF len r i])
    with step show ?thesis
      by simp
  qed
  have jump: "second_pass labels addr acc (line # rest) =
         (if 63 < a
          then Inl (ErrorAtAddress addr (ValueError
                 (''Jump address '' @ py_str (int a) @ '' exceeds 6-bit range (0-63)'')))
          else second_pass labels (addr + 1) (acc @ [(addr, push_bit 12 0xC OR int a)]) rest)"
    if "mn = ''JUMP''" and "ops \<noteq> []" and "labels (hd ops) = Some a" for a
  proof -
    from that(2,3) have "operand (replace_labels labels ops) 0 = Inr (str_nat a)"
      by (cases ops) (simp_all add: replace_labels_def py_str_nat operand_def)
    then have "encode_instruction ''JUMP'' (replace_labels labels ops) =
        (if 63 < int a
         then Inl (ValueError
                (''Jump address '' @ py_str (int a) @ '' exceeds 6-bit range (0-63)''))
         else Inr (push_bit 12 0xC OR int a))"
      by (simp add: encode_instruction_def OPCODES_def py_upper_def upper_char_def
          and_then_def exceeds_def parse_immediate_str_nat)
    with step that(1) show ?thesis
      by simp
  qed
  have unbound: "second_pass labels addr acc (line # rest) =
         (case encode_instruction mn ops of
            Inl e \<Rightarrow> Inl (ErrorAtAddress addr e)
          | Inr w \<Rightarrow> second_pass labels (addr + 1) (acc @ [(addr, w)]) rest)"
    if "\<forall>op \<in> set ops. labels op = None"
    using step replace_labels_unbound [OF that] by simp
  from step reg imm jump unbound show ?thesis
    unfolding replace_labels_def by blast
qed

theorem operand_resolution_order_witness:
  "assemble_line ''LOADI R1, 7'' = Some (''LOADI'', [''R1'', ''7''], None) \<and>
   second_pass [''R1'' \<mapsto> 4, ''7'' \<mapsto> 2] 0 [] [''LOADI R1, 7''] =
     Inl (ErrorAtAddress 0 (ValueError ''Invalid register: 4'')) \<and>
   second_pass [''7'' \<mapsto> 2] 0 [] [''LOADI R1, 7''] = Inr [(0, 0x0202)] \<and>
   assemble_line ''JUMP R1'' = Some (''JUMP'', [''R1''], None) \<and>
   second_pass [''R1'' \<mapsto> 4] 0 [] [''JUMP R1''] = Inr [(0, 0xC004)] \<and>
   second_pass [''X'' \<mapsto> 4] 0 [] [''JUMP R1''] =
     Inl (ErrorAtAddress 0 (InvalidLiteral 10 ''R1''))"
proof -
  have h: "assemble_line ''LOADI R1, 7'' = Some (''LOADI'', [''R1'', ''7''], None)"
    by code_simp
  have hj: "assemble_line ''JUMP R1'' = Some (''JUMP'', [''R1''], None)"
    by code_simp
  have n: "''LOADI'' \<noteq> ''LABEL''" "''JUMP'' \<noteq> ''LABEL''"
    by simp_all
  have s: "py_str (int 4) = ''4''" "parse_register ''R1'' = Inr 1"
    by code_simp+
  have e: "encode_instruction ''JUMP'' [''R1''] = Inl (InvalidLiteral 10 ''R1'')"
    by code_simp
  have a: "second_pass [''R1'' \<mapsto> 4, ''7'' \<mapsto> 2] 0 [] [''LOADI R1, 7''] =
     Inl (ErrorAtAddress 0 (ValueError ''Invalid register: 4''))"
    using operand_resolution_order [OF h n(1), of "[''R1'' \<mapsto> 4, ''7'' \<mapsto> 2]" 0 "[]" "[]",
        THEN conjunct2, THEN conjunct1, rule_format, of 4] s
    by (simp del: second_pass.simps)
  have b: "second_pass [''7'' \<mapsto> 2] 0 [] [''LOADI R1, 7''] = Inr [(0, 0x0202)]"
    using operand_resolution_order [OF h n(1), of "[''7'' \<mapsto> 2]" 0 "[]" "[]",
        THEN conjunct2, THEN conjunct2, THEN conjunct1, rule_format,
        of "''Immediate value''" 0 1 2] s
    by (simp del: second_pass.simps(2))
  have c: "second_pass [''R1'' \<mapsto> 4] 0 [] [''JUMP R1''] = Inr [(0, 0xC004)]"
    using operand_resolution_order [OF hj n(2), of "[''R1'' \<mapsto> 4]" 0 "[]" "[]",
        THEN conjunct2, THEN conjunct2, THEN conjunct2, THEN conjunct1, rule_format, of 4]
    by (simp del: second_pass.simps(2))
  have d: "second_pass [''X'' \<mapsto> 4] 0 [] [''JUMP R1''] =
     Inl (ErrorAtAddress 0 (InvalidLiteral 10 ''R1''))"
    using operand_resolution_order [OF hj n(2), of "[''X'' \<mapsto> 4]" 0 "[]" "[]",
        THEN conjunct2, THEN conjunct2, THEN conjunct2, THEN conjunct2] e
    by (simp del: second_pass.simps)
  from h hj a b c d show ?thesis
    by blast
qed

section \<open>Whole programs\<close>

text \<open>
  C3, on the code: the scenario of the specification does not assemble.  The line
  \<^verbatim>\<open>START:\<close> is parsed to \<^verbatim>\<open>('LABEL', ['START'], None)\<close>, whose third component is
  \<^verbatim>\<open>None\<close>, so the first pass binds nothing; \<^verbatim>\<open>JUMP START\<close> then reaches \<^verbatim>\<open>int\<close>
  with the text \<^verbatim>\<open>START\<close> and the run fails at address 3.
\<close>

theorem end_to_end_scenario_fails:
  "symbol_table
     ''START:\<newline>LOADI R0, 5\<newline>LOADI R1, 10\<newline>ADD R2, R0, R1\<newline>JUMP START\<newline>HALT''
     ''START'' = None \<and>
   assemble
     ''START:\<newline>LOADI R0, 5\<newline>LOADI R1, 10\<newline>ADD R2, R0, R1\<newline>JUMP START\<newline>HALT''
     = Inl (ErrorAtAddress 3 (InvalidLiteral 10 ''START''))"
  by code_simp

text \<open>
  C6, on the code: a forward reference to a label that stands alone on its line does
  not resolve; the run fails at the instruction that uses the label.
\<close>

theorem forward_reference_to_label_line_fails:
  "assemble ''JUMP END\<newline>END:\<newline>HALT'' =
     Inl (ErrorAtAddress 0 (InvalidLiteral 10 ''END''))"
  by code_simp

text \<open>A forward reference to a label that shares its line with an instruction does
  resolve.\<close>

lemma forward_reference_same_line:
  "assemble ''JUMP END\<newline>END: HALT'' = Inr [(0, 0xC001), (1, 0xF000)]"
  by code_simp

text \<open>
  C4, as the claim states it, fails: with a label named \<^verbatim>\<open>R1\<close> defined, the operand
  \<^verbatim>\<open>R1\<close> of \<^verbatim>\<open>LOADI R1, 5\<close> is not resolved to register 1.  The second pass replaces
  it by the label's address first, and the encoder rejects \<^verbatim>\<open>0\<close> as a register.
\<close>

theorem register_named_label_counterexample:
  "symbol_table ''R1: LOADI R1, 5'' ''R1'' = Some 0 \<and>
   assemble ''R1: LOADI R1, 5'' = Inl (ErrorAtAddress 0 (ValueError ''Invalid register: 0''))"
  by code_simp

subsection \<open>Addresses\<close>

lemma second_pass_addresses:
  "second_pass labels addr acc lines = Inr res \<Longrightarrow>
   \<exists>new. res = acc @ new \<and>
         map fst new = [addr ..< addr + length (filter is_statement lines)]"
proof (induction lines arbitrary: addr acc)
  case Nil
  then show ?case
    by simp
next
  case (Cons line lines)
  show ?case
  proof (cases "assemble_line line")
    case None
    with Cons show ?thesis
      by (simp add: is_statement_def)
  next
    case (Some t)
    obtain mn ops lbl where t: "t = (mn, ops, lbl)"
      by (cases t) auto
    show ?thesis
    proof (cases "mn = ''LABEL''")
      case True
      with Cons Some t show ?thesis
        by (simp add: is_statement_def)
    next
      case False
      with Cons.prems Some t obtain w where
        rest: "second_pass labels (addr + 1) (acc @ [(addr, w)]) lines = Inr res"
        by (auto split: sum.splits)
      from Cons.IH [OF rest] obtain new where
        new: "res = (acc @ [(addr, w)]) @ new"
          "map fst new = [addr + 1 ..< addr + 1 + length (filter is_statement lines)]"
        by blast
      have st: "is_statement line"
        using Some t False by (simp add: is_statement_def)
      have "[addr ..< addr + length (filter is_statement (line # lines))] =
            addr # [addr + 1 ..< addr + 1 + length (filter is_statement lines)]"
        using st by (simp add: upt_conv_Cons del: upt_Suc)
      with new(2) have "map fst ((addr, w) # new) =
          [addr ..< addr + length (filter is_statement (line # lines))]"
        by simp
      with new(1) show ?thesis
        by (intro exI [of _ "(addr, w) # new"]) simp
    qed
  qed
qed

lemma is_statement_counted: "is_statement = counted_statement"
  by (rule ext)
    (auto simp: is_statement_def counted_statement_def non_label_statement_def
      pure_label_line_def statement_mnemonic_def assemble_line_def parse_statement_def
      stripped_def after_colon_def Let_def)

text \<open>
  C5, as the claim states it, fails: the source below has three non-label statements
  (none of its lines is blank or a pure-label line), yet it assembles to two
  instructions; the statement \<^verbatim>\<open>LABEL foo\<close> takes no address.
\<close>

theorem address_contiguity_counterexample:
  "length (filter non_label_statement
     (py_split (CHR 0x0A) ''LOADI R0, 1\<newline>LABEL foo\<newline>HALT'')) = 3 \<and>
   assemble ''LOADI R0, 1\<newline>LABEL foo\<newline>HALT'' = Inr [(0, 0x0001), (1, 0xF000)]"
  by code_simp

text \<open>
  C5 (amended): when a source assembles, the result has exactly \<open>N\<close> instructions and
  their addresses are \<open>0, 1, ..., N - 1\<close> in this order, strictly increasing, where
  \<open>N\<close> is the number of non-label statements whose mnemonic is not \<^verbatim>\<open>LABEL\<close>.  Blank
  lines, pure-label lines and statements with the mnemonic \<^verbatim>\<open>LABEL\<close> take no address.
\<close>

theorem address_contiguity:
  assumes "assemble source = Inr instructions"
  shows "length instructions =
           length (filter counted_statement (py_split (CHR 0x0A) source)) \<and>
         map fst instructions =
           [0 ..< length (filter counted_statement (py_split (CHR 0x0A) source))] \<and>
         sorted_wrt (<) (map fst instructions)"
proof -
  from assms second_pass_addresses [of _ 0 "[]" "py_split (CHR 0x0A) source" instructions]
  have m: "map fst instructions =
      [0 ..< length (filter counted_statement (py_split (CHR 0x0A) source))]"
    by (auto simp: assemble_def assemble_lines_def is_statement_counted)
  then have "length (map fst instructions) =
      length [0 ..< length (filter counted_statement (py_split (CHR 0x0A) source))]"
    by (simp only:)
  then have "length instructions =
      length (filter counted_statement (py_split (CHR 0x0A) source))"
    by simp
  with m show ?thesis
    by simp
qed

theorem address_contiguity_witness:
  "assemble ''LOADI R0, 1\<newline>L:\<newline>\<newline>label x\<newline>X: HALT ; stop'' =
     Inr [(0, 0x0001), (1, 0xF000)] \<and>
   length (filter counted_statement
     (py_split (CHR 0x0A) ''LOADI R0, 1\<newline>L:\<newline>\<newline>label x\<newline>X: HALT ; stop'')) = 2"
proof -
  have h: "assemble ''LOADI R0, 1\<newline>L:\<newline>\<newline>label x\<newline>X: HALT ; stop'' =
      Inr [(0, 0x0001), (1, 0xF000)]"
    by code_simp
  from address_contiguity [OF h] h show ?thesis
    by simp
qed

subsection \<open>Lines that both passes skip\<close>

lemma first_pass_skip:
  "assemble_line line = Some (''LABEL'', ops, None) \<Longrightarrow>
   first_pass L a (before @ line # after) = first_pass L a (before @ after)"
  by (induction before arbitrary: L a) (auto split: option.splits)

lemma second_pass_skip:
  "assemble_line line = Some (''LABEL'', ops, None) \<Longrightarrow>
   second_pass L a acc (before @ line # after) = second_pass L a acc (before @ after)"
  by (induction before arbitrary: a acc) (auto split: option.splits sum.splits)

text \<open>
  C10: a line that, once its comment is removed and it is stripped, has no colon and
  whose first token in upper case is \<^verbatim>\<open>LABEL\<close> is skipped by both passes.  A program
  with such a line assembles to the same result, with the same symbol table, as the
  program without the line; the line is no statement and takes no address.
\<close>

theorem label_mnemonic_line_skipped:
  assumes "CHR '':'' \<notin> set (py_strip (hd (py_split (CHR '';'') line)))"
    and "py_upper (hd (re_split (py_strip (hd (py_split (CHR '';'') line))))) = ''LABEL''"
  shows "assemble_lines (before @ line # after) = assemble_lines (before @ after) \<and>
         first_pass Map.empty 0 (before @ line # after) =
           first_pass Map.empty 0 (before @ after) \<and>
         \<not> is_statement line"
proof -
  have "py_strip (hd (py_split (CHR '';'') line)) \<noteq> []"
  proof
    assume "py_strip (hd (py_split (CHR '';'') line)) = []"
    with assms(2) show False
      by (simp add: re_split_def py_upper_def)
  qed
  with assms obtain ops where al: "assemble_line line = Some (''LABEL'', ops, None)"
    by (simp add: assemble_line_def parse_statement_def Let_def)
  from first_pass_skip [OF al] second_pass_skip [OF al] al show ?thesis
    by (simp add: assemble_lines_def is_statement_def)
qed

theorem label_mnemonic_line_skipped_witness:
  "CHR '':'' \<notin> set (py_strip (hd (py_split (CHR '';'') '' label foo, 1 ; note''))) \<and>
   py_upper (hd (re_split (py_strip (hd (py_split (CHR '';'') '' label foo, 1 ; note''))))) =
     ''LABEL'' \<and>
   assemble ''LOADI R0, 1\<newline> label foo, 1 ; note\<newline>HALT'' = assemble ''LOADI R0, 1\<newline>HALT''"
proof -
  have h1: "CHR '':'' \<notin> set (py_strip (hd (py_split (CHR '';'') '' label foo, 1 ; note'')))"
    by code_simp
  have h2: "py_upper (hd (re_split (py_strip (hd (py_split (CHR '';'') '' label foo, 1 ; note''))))) =
      ''LABEL''"
    by code_simp
  have s1: "py_split (CHR 0x0A) ''LOADI R0, 1\<newline> label foo, 1 ; note\<newline>HALT'' =
      [''LOADI R0, 1''] @ '' label foo, 1 ; note'' # [''HALT'']"
    by code_simp
  have s2: "py_split (CHR 0x0A) ''LOADI R0, 1\<newline>HALT'' = [''LOADI R0, 1''] @ [''HALT'']"
    by code_simp
  from label_mnemonic_line_skipped [OF h1 h2, of "[''LOADI R0, 1'']" "[''HALT'']"] h1 h2
  show ?thesis
    unfolding assemble_def s1 s2 by blast
qed

subsection \<open>A label defined more than once\<close>

lemma labelled_statement_iff:
  "labelled_statement l line \<longleftrightarrow>
     l \<noteq> [] \<and> (\<exists>mn ops. assemble_line line = Some (mn, ops, Some l))"
  by (auto simp: labelled_statement_def assemble_line_def parse_statement_def
      stripped_def after_colon_def Let_def)

lemma first_pass_append:
  "first_pass L a (xs @ ys) =
   first_pass (first_pass L a xs) (a + length (filter is_statement xs)) ys"
  by (induction xs arbitrary: L a) (auto simp: is_statement_def split: option.splits)

lemma first_pass_other:
  "\<forall>x \<in> set ys. \<not> labelled_statement l x \<Longrightarrow> first_pass L a ys l = L l"
  by (induction ys arbitrary: L a) (auto simp: labelled_statement_iff split: option.splits)

text \<open>The only failures of the second pass are failures of the encoder on a statement;
  no run is rejected for the labels it defines.\<close>

lemma second_pass_error:
  "second_pass L a acc lines = Inl e \<Longrightarrow>
   \<exists>addr mn ops e'. e = ErrorAtAddress addr e' \<and> encode_instruction mn ops = Inl e'"
proof (induction lines arbitrary: a acc)
  case Nil
  then show ?case
    by simp
next
  case (Cons line lines)
  then show ?case
    by (fastforce split: option.splits if_splits sum.splits)
qed

text \<open>
  C9, as the claim states it, fails: a source that defines \<^verbatim>\<open>A\<close> twice assembles, and
  the table holds the address of the second definition.
\<close>

theorem duplicate_label_counterexample:
  "assemble ''A: HALT\<newline>A: HALT'' = Inr [(0, 0xF000), (1, 0xF000)] \<and>
   symbol_table ''A: HALT\<newline>A: HALT'' ''A'' = Some 1"
  by code_simp

text \<open>
  C9 (amended): a label may be defined more than once on lines of the form
  \<^verbatim>\<open>label: statement\<close>; the run is not rejected for it.  The first pass records each such
  definition in turn and a later one overwrites an earlier one: after the pass the
  label is bound to the address current at the last line of this form that carries
  it, that is to the number of address-taking statements before that line, whatever
  definitions of the label come before it.  (A label that stands alone on its line is
  not the subject of this statement.)
\<close>

theorem duplicate_label_last_wins:
  assumes "py_split (CHR 0x0A) source = before @ line # after"
    and "labelled_statement l line"
    and "\<forall>x \<in> set after. \<not> labelled_statement l x"
  shows "symbol_table source l = Some (length (filter counted_statement before))"
proof -
  from assms(2) obtain mn ops where
    al: "assemble_line line = Some (mn, ops, Some l)" and l: "l \<noteq> []"
    by (auto simp: labelled_statement_iff)
  have "first_pass Map.empty 0 (before @ line # after) l =
        first_pass (first_pass Map.empty 0 before) (length (filter is_statement before))
          (line # after) l"
    by (simp add: first_pass_append)
  also have "\<dots> = Some (length (filter is_statement before))"
    using al l first_pass_other [OF assms(3)] by simp
  finally show ?thesis
    by (simp add: symbol_table_def assms(1) is_statement_counted)
qed

theorem duplicate_label_last_wins_witness:
  "py_split (CHR 0x0A) ''A: HALT\<newline>A: HALT\<newline>A:\<newline>HALT'' =
     [''A: HALT''] @ ''A: HALT'' # [''A:'', ''HALT''] \<and>
   labelled_statement ''A'' ''A: HALT'' \<and>
   \<not> labelled_statement ''A'' ''A:'' \<and> \<not> labelled_statement ''A'' ''HALT'' \<and>
   symbol_table ''A: HALT\<newline>A: HALT\<newline>A:\<newline>HALT'' ''A'' = Some 1"
proof -
  have h1: "py_split (CHR 0x0A) ''A: HALT\<newline>A: HALT\<newline>A:\<newline>HALT'' =
      [''A: HALT''] @ ''A: HALT'' # [''A:'', ''HALT'']"
    by code_simp
  have h2: "labelled_statement ''A'' ''A: HALT''"
    by code_simp
  have n1: "\<not> labelled_statement ''A'' ''A:''" and n2: "\<not> labelled_statement ''A'' ''HALT''"
    by code_simp+
  then have h3: "\<forall>x \<in> set [''A:'', ''HALT'']. \<not> labelled_statement ''A'' x"
    by simp
  have n: "length (filter counted_statement [''A: HALT'']) = 1"
    by code_simp
  from duplicate_label_last_wins [OF h1 h2 h3] h1 h2 n1 n2 n show ?thesis
    by simp
qed

end
